theory Spec2Isabelle
  imports Main "HOL-Library.Word"
begin

section \<open>The OBX code model (ObxAst.h)\<close>

text \<open>
  The abstract syntax of the Oberon+ front end is declared in \<^verbatim>\<open>ObxAst.h\<close>. Every node
  derives from \<^verbatim>\<open>Thing\<close>; the enumerations are plain C++ enums stored in small unsigned
  fields (\<^verbatim>\<open>quint8\<close>, bit fields). An enumeration is modelled as a datatype together with
  the number C++ gives each enumerator, and a field keeps the width the header declares.
\<close>

subsection \<open>Named entities and \<^verbatim>\<open>isVarParam\<close>\<close>

text \<open>
  \<^verbatim>\<open>struct Parameter : public Named { bool d_var; bool d_const; bool d_receiver;
    Parameter():d_var(false),d_const(false),d_receiver(false) {}
    bool isVarParam() const { return ( d_var || d_const ); } };\<close>
\<close>

record Parameter =
  d_var :: bool
  d_const :: bool
  d_receiver :: bool

definition Parameter_new :: Parameter where
  "Parameter_new = \<lparr>d_var = False, d_const = False, d_receiver = False\<rparr>"

text \<open>
  The subclasses of \<^verbatim>\<open>Named\<close>, one constructor each, named by the tag that
  \<^verbatim>\<open>getTag\<close> returns for the class (\<^verbatim>\<open>enum Tag\<close> of \<^verbatim>\<open>Thing\<close>). \<^verbatim>\<open>Procedure\<close>,
  \<^verbatim>\<open>Module\<close> and \<^verbatim>\<open>NamedType\<close> derive from \<^verbatim>\<open>Scope\<close>, which derives from \<^verbatim>\<open>Named\<close>.
  Only \<^verbatim>\<open>Parameter\<close> carries data that \<^verbatim>\<open>isVarParam\<close> reads.
\<close>

datatype Named_class =
    T_GenericName
  | T_Field
  | T_Variable
  | T_LocalVar
  | T_Parameter Parameter
  | T_Const
  | T_Import
  | T_BuiltIn
  | T_Scope
  | T_Procedure
  | T_Module
  | T_NamedType

text \<open>
  \<^verbatim>\<open>virtual bool Named::isVarParam() const { return false; }\<close>, overridden by
  \<^verbatim>\<open>Parameter\<close> alone; the virtual call dispatches on the dynamic class.
\<close>

fun isVarParam :: "Named_class \<Rightarrow> bool" where
  "isVarParam (T_Parameter p) = (d_var p \<or> d_const p)"
| "isVarParam _ = False"

text \<open>
  Claim C9. For every parameter, \<^verbatim>\<open>isVarParam\<close> is true exactly when the parameter is
  declared by reference (\<^verbatim>\<open>d_var\<close>) or by const reference (\<^verbatim>\<open>d_const\<close>); the receiver
  flag has no influence on the answer, in particular a parameter with only the receiver flag
  set is not a var-parameter; and every named entity that is not a parameter answers false.
\<close>

theorem isVarParam_iff:
  "(isVarParam (T_Parameter p) \<longleftrightarrow> d_var p \<or> d_const p)
   \<and> isVarParam (T_Parameter (p\<lparr>d_receiver := r\<rparr>)) = isVarParam (T_Parameter p)
   \<and> \<not> isVarParam (T_Parameter (Parameter_new\<lparr>d_receiver := True\<rparr>))
   \<and> ((\<nexists>q. n = T_Parameter q) \<longrightarrow> \<not> isVarParam n)"
  by (cases n) (simp_all add: Parameter_new_def)

theorem isVarParam_iff_witness:
  "(\<nexists>q. T_Field = T_Parameter q) \<and> \<not> isVarParam T_Field
   \<and> isVarParam (T_Parameter \<lparr>d_var = False, d_const = True, d_receiver = False\<rparr>)
   \<and> \<not> isVarParam (T_Parameter \<lparr>d_var = False, d_const = False, d_receiver = True\<rparr>)"
  using isVarParam_iff [of "\<lparr>d_var = False, d_const = True, d_receiver = False\<rparr>" True T_Field]
    isVarParam_iff [of "\<lparr>d_var = False, d_const = False, d_receiver = True\<rparr>" True T_Field]
  by simp

subsection \<open>Primitive base types\<close>

text \<open>
  \<^verbatim>\<open>enum { ANY, NIL, STRING, WSTRING, BOOLEAN, CHAR, WCHAR, BYTE, SHORTINT,
          INTEGER, LONGINT, REAL, LONGREAL, SET };\<close> in \<^verbatim>\<open>struct BaseType\<close>.
\<close>

datatype BaseType_kind =
    ANY | NIL | STRING | WSTRING | BOOLEAN | CHAR_t | WCHAR | BYTE | SHORTINT
  | INTEGER | LONGINT | REAL | LONGREAL | SET

text \<open>The value of each enumerator: they count from zero in the order written.\<close>

fun kind_value :: "BaseType_kind \<Rightarrow> 8 word" where
  "kind_value ANY = 0"
| "kind_value NIL = 1"
| "kind_value STRING = 2"
| "kind_value WSTRING = 3"
| "kind_value BOOLEAN = 4"
| "kind_value CHAR_t = 5"
| "kind_value WCHAR = 6"
| "kind_value BYTE = 7"
| "kind_value SHORTINT = 8"
| "kind_value INTEGER = 9"
| "kind_value LONGINT = 10"
| "kind_value REAL = 11"
| "kind_value LONGREAL = 12"
| "kind_value SET = 13"

text \<open>
  The fields of \<^verbatim>\<open>struct Type\<close> that are plain data: \<^verbatim>\<open>uint d_visited : 1; uint d_type : 4;
  uint d_selfRef : 1; uint d_unsafe : 1; uint d_union : 1;\<close>, all cleared by \<^verbatim>\<open>Type()\<close>.
  The back pointer \<^verbatim>\<open>d_ident\<close> and the system flag \<^verbatim>\<open>d_flag\<close> play no part here.
\<close>

record BaseType =
  d_visited :: bool
  d_type :: "4 word"
  d_selfRef :: bool
  d_unsafe :: bool
  d_union :: bool

definition Type_new :: BaseType where
  "Type_new = \<lparr>d_visited = False, d_type = 0, d_selfRef = False, d_unsafe = False, d_union = False\<rparr>"

text \<open>
  \<^verbatim>\<open>BaseType(quint8 t = NIL ) { d_type = t; }\<close>: the argument is any 8-bit value, and the
  assignment to the 4-bit field keeps its low four bits.
\<close>

definition BaseType_new :: "8 word \<Rightarrow> BaseType" where
  "BaseType_new t = Type_new\<lparr>d_type := ucast t\<rparr>"

definition BaseType_default :: BaseType where
  "BaseType_default = BaseType_new (kind_value NIL)"

text \<open>Reading a stored tag back as an enumerator; tags 14 and 15 name none.\<close>

definition kind_of_tag :: "4 word \<Rightarrow> BaseType_kind option" where
  "kind_of_tag w =
     (if w = 0 then Some ANY else if w = 1 then Some NIL else if w = 2 then Some STRING
      else if w = 3 then Some WSTRING else if w = 4 then Some BOOLEAN else if w = 5 then Some CHAR_t
      else if w = 6 then Some WCHAR else if w = 7 then Some BYTE else if w = 8 then Some SHORTINT
      else if w = 9 then Some INTEGER else if w = 10 then Some LONGINT else if w = 11 then Some REAL
      else if w = 12 then Some LONGREAL else if w = 13 then Some SET else None)"

definition getKind :: "BaseType \<Rightarrow> BaseType_kind option" where
  "getKind b = kind_of_tag (d_type b)"

lemma kind_value_less_14: "kind_value k < 14"
  by (cases k) simp_all

lemma kind_of_tag_kind_value: "kind_of_tag (ucast (kind_value k)) = Some k"
  by (cases k) (simp_all add: kind_of_tag_def)

lemma kind_of_tag_Some_iff: "kind_of_tag w = Some k \<longleftrightarrow> ucast (kind_value k) = w"
  by (cases k) (auto simp: kind_of_tag_def split: if_splits)

lemma word4_cases: "(w :: 4 word) \<in> {0, 1, 2, 3, 4, 5, 6, 7, 8, 9, 10, 11, 12, 13, 14, 15}"
proof -
  have "unat w < 16"
    using unsigned_less [of w, where 'a = nat] by simp
  then have "unat w \<in> {0, 1, 2, 3, 4, 5, 6, 7, 8, 9, 10, 11, 12, 13, 14, 15}"
    by simp arith
  then have "word_of_nat (unat w)
      \<in> (word_of_nat ` {0, 1, 2, 3, 4, 5, 6, 7, 8, 9, 10, 11, 12, 13, 14, 15} :: 4 word set)"
    by (rule imageI)
  then show ?thesis by simp
qed

lemma kind_of_tag_None_iff: "kind_of_tag w = None \<longleftrightarrow> w = 14 \<or> w = 15"
  using word4_cases [of w] by (auto simp: kind_of_tag_def)

lemma ucast_8_4_unat: "unat (ucast (t :: 8 word) :: 4 word) = unat t mod 16"
  by (simp add: unsigned_ucast_eq take_bit_eq_mod)

lemma BaseType_new_tag: "d_type (BaseType_new t) = ucast t"
  by (simp add: BaseType_new_def Type_new_def)

text \<open>
  Claim C6, as stated, fails on the second half: the constructor takes any 8-bit value, so a
  node built from 14 carries the tag 14, which is none of the fourteen enumerators.
\<close>

theorem BaseType_tag_counterexample:
  "d_type (BaseType_new 14) = 14 \<and> getKind (BaseType_new 14) = None"
  by (simp add: getKind_def BaseType_new_tag kind_of_tag_def)

lemma UNIV_kinds: "(UNIV :: BaseType_kind set) =
     {ANY, NIL, STRING, WSTRING, BOOLEAN, CHAR_t, WCHAR, BYTE, SHORTINT, INTEGER, LONGINT, REAL,
      LONGREAL, SET}"
proof -
  have "k \<in> {ANY, NIL, STRING, WSTRING, BOOLEAN, CHAR_t, WCHAR, BYTE, SHORTINT, INTEGER, LONGINT, REAL,
      LONGREAL, SET}" for k
  by (cases k) simp_all
  then show ?thesis by blast
qed

lemma getKind_None_iff: "getKind (BaseType_new t) = None \<longleftrightarrow> 14 \<le> unat t mod 16"
proof -
  have "unat (ucast t :: 4 word) = unat t mod 16" by (rule ucast_8_4_unat)
  moreover have "(ucast t :: 4 word) = 14 \<longleftrightarrow> unat (ucast t :: 4 word) = 14"
    by (simp add: word_unat_eq_iff)
  moreover have "(ucast t :: 4 word) = 15 \<longleftrightarrow> unat (ucast t :: 4 word) = 15"
    by (simp add: word_unat_eq_iff)
  moreover have "unat t mod 16 < 16" by simp
  ultimately show ?thesis
    unfolding getKind_def BaseType_new_tag kind_of_tag_None_iff by simp arith
qed

text \<open>
  Claim C6, amended. The primitive kinds are exactly the fourteen enumerators \<^verbatim>\<open>ANY\<close>,
  \<^verbatim>\<open>NIL\<close>, \<^verbatim>\<open>STRING\<close>, \<^verbatim>\<open>WSTRING\<close>, \<^verbatim>\<open>BOOLEAN\<close>, \<^verbatim>\<open>CHAR\<close>, \<^verbatim>\<open>WCHAR\<close>,
  \<^verbatim>\<open>BYTE\<close>, \<^verbatim>\<open>SHORTINT\<close>, \<^verbatim>\<open>INTEGER\<close>, \<^verbatim>\<open>LONGINT\<close>, \<^verbatim>\<open>REAL\<close>, \<^verbatim>\<open>LONGREAL\<close>,
  \<^verbatim>\<open>SET\<close>, numbered 0 to 13. A node constructed from one of them (or by default, which is
  \<^verbatim>\<open>NIL\<close>) carries that kind as its tag. The constructor itself accepts every 8-bit value
  and stores its low four bits: the stored tag is none of the fourteen exactly when those
  four bits are 14 or 15.
\<close>

theorem BaseType_kinds:
  "(UNIV :: BaseType_kind set) =
     {ANY, NIL, STRING, WSTRING, BOOLEAN, CHAR_t, WCHAR, BYTE, SHORTINT, INTEGER, LONGINT, REAL,
      LONGREAL, SET}
   \<and> card (UNIV :: BaseType_kind set) = 14
   \<and> kind_value k < 14
   \<and> getKind (BaseType_new (kind_value k)) = Some k
   \<and> getKind BaseType_default = Some NIL
   \<and> (getKind (BaseType_new t) = None \<longleftrightarrow> 14 \<le> unat t mod 16)"
proof -
  have "card (UNIV :: BaseType_kind set) = 14"
    unfolding UNIV_kinds by simp
  moreover have "getKind (BaseType_new (kind_value k)) = Some k" for k
    by (simp add: getKind_def BaseType_new_tag kind_of_tag_kind_value)
  moreover have "getKind BaseType_default = Some NIL"
    unfolding BaseType_default_def
    by (simp add: getKind_def BaseType_new_tag kind_of_tag_def)
  ultimately show ?thesis
    using UNIV_kinds kind_value_less_14 [of k] getKind_None_iff [of t]
    by simp
qed

subsection \<open>Binary expressions\<close>

text \<open>
  \<^verbatim>\<open>enum Op { Invalid, Range,
            EQ, NEQ, LT, LEQ, GT, GEQ, IN, IS,  //'=' | '#' | '<' | '<=' | '>' | '>=' | IN | IS
            ADD, SUB, OR,  // '+' | '-' | OR
            MUL, FDIV, DIV, MOD, AND,  // '*' | '/' | DIV | MOD | '&'
          };\<close> in \<^verbatim>\<open>struct BinExpr\<close>.
\<close>

datatype Op =
    Invalid | Range_op
  | EQ | NEQ | LT | LEQ | GT | GEQ | IN | IS
  | ADD | SUB | OR
  | MUL | FDIV | DIV | MOD | AND

fun Op_value :: "Op \<Rightarrow> 8 word" where
  "Op_value Invalid = 0"
| "Op_value Range_op = 1"
| "Op_value EQ = 2"
| "Op_value NEQ = 3"
| "Op_value LT = 4"
| "Op_value LEQ = 5"
| "Op_value GT = 6"
| "Op_value GEQ = 7"
| "Op_value IN = 8"
| "Op_value IS = 9"
| "Op_value ADD = 10"
| "Op_value SUB = 11"
| "Op_value OR = 12"
| "Op_value MUL = 13"
| "Op_value FDIV = 14"
| "Op_value DIV = 15"
| "Op_value MOD = 16"
| "Op_value AND = 17"

text \<open>Reading a stored \<^verbatim>\<open>quint8 d_op\<close> back as an enumerator.\<close>

definition all_Ops :: "Op list" where
  "all_Ops = [Invalid, Range_op, EQ, NEQ, LT, LEQ, GT, GEQ, IN, IS, ADD, SUB, OR,
              MUL, FDIV, DIV, MOD, AND]"

definition Op_of_value :: "8 word \<Rightarrow> Op option" where
  "Op_of_value w = List.find (\<lambda>op. Op_value op = w) all_Ops"

text \<open>
  \<^verbatim>\<open>struct BinExpr : public Expression { quint8 d_op; Ref<Expression> d_lhs, d_rhs;
    BinExpr():d_op(Invalid){} };\<close> The operands are references that may be null; the type
  of an operand is left open here.
\<close>

record 'e BinExpr =
  d_op :: "8 word"
  d_lhs :: "'e option"
  d_rhs :: "'e option"

definition BinExpr_new :: "'e BinExpr" where
  "BinExpr_new = \<lparr>d_op = Op_value Invalid, d_lhs = None, d_rhs = None\<rparr>"

text \<open>
  A well-formed binary expression carries an operator: its tag is an enumerator of \<^verbatim>\<open>Op\<close>
  other than the placeholder \<^verbatim>\<open>Invalid\<close> that the constructor leaves.
\<close>

definition BinExpr_wellformed :: "'e BinExpr \<Rightarrow> bool" where
  "BinExpr_wellformed b =
     (case Op_of_value (d_op b) of None \<Rightarrow> False | Some op \<Rightarrow> op \<noteq> Invalid)"

text \<open>
  The operators as the specification lists them: range, the six relations, \<^verbatim>\<open>IN\<close>,
  \<^verbatim>\<open>IS\<close>, add, sub, or, and mul, div, mod, and.
\<close>

definition spec_BinExpr_ops :: "Op set" where
  "spec_BinExpr_ops =
     {Range_op, EQ, NEQ, LT, LEQ, GT, GEQ, IN, IS, ADD, SUB, OR, MUL, DIV, MOD, AND}"

lemma Op_of_value_Op_value: "Op_of_value (Op_value op) = Some op"
  by (cases op) (simp_all add: Op_of_value_def all_Ops_def)

lemma Op_of_value_SomeD: "Op_of_value w = Some op \<Longrightarrow> w = Op_value op"
  by (auto simp: Op_of_value_def find_Some_iff)

lemma Op_cases_spec: "op = Invalid \<or> op = FDIV \<or> op \<in> spec_BinExpr_ops"
  by (cases op) (simp_all add: spec_BinExpr_ops_def)

text \<open>
  Claim C2, as stated, fails: the enumeration has a real-division operator \<^verbatim>\<open>FDIV\<close> (the
  \<^verbatim>\<open>/\<close> of the language) with value 14, and a binary expression carrying it is well
  formed although \<^verbatim>\<open>FDIV\<close> is not in the list.
\<close>

theorem BinExpr_FDIV_counterexample:
  "BinExpr_wellformed \<lparr>d_op = 14, d_lhs = Some (), d_rhs = Some ()\<rparr>
   \<and> Op_of_value (d_op \<lparr>d_op = 14, d_lhs = Some (), d_rhs = Some ()\<rparr>) = Some FDIV
   \<and> FDIV \<notin> spec_BinExpr_ops"
  by (simp add: BinExpr_wellformed_def Op_of_value_def all_Ops_def spec_BinExpr_ops_def)

text \<open>
  Claim C2, amended. The binary operators are exactly range, the six relations, \<^verbatim>\<open>IN\<close>,
  \<^verbatim>\<open>IS\<close>, the add operators \<^verbatim>\<open>+\<close>, \<^verbatim>\<open>-\<close>, \<^verbatim>\<open>OR\<close> and the mul operators \<^verbatim>\<open>*\<close>,
  \<^verbatim>\<open>/\<close> (\<^verbatim>\<open>FDIV\<close>), \<^verbatim>\<open>DIV\<close>, \<^verbatim>\<open>MOD\<close>, \<^verbatim>\<open>&\<close>: a binary expression is well formed
  exactly when its tag is one of these, they are all the enumerators but \<^verbatim>\<open>Invalid\<close>, and a
  freshly constructed node (tag \<^verbatim>\<open>Invalid\<close>) is not well formed.
\<close>

theorem BinExpr_ops_exactly:
  "(BinExpr_wellformed b \<longleftrightarrow> (\<exists>op \<in> insert FDIV spec_BinExpr_ops. d_op b = Op_value op))
   \<and> insert FDIV spec_BinExpr_ops = UNIV - {Invalid}
   \<and> \<not> BinExpr_wellformed (BinExpr_new :: 'e BinExpr)"
proof -
  have a: "BinExpr_wellformed b \<longleftrightarrow> (\<exists>op \<in> insert FDIV spec_BinExpr_ops. d_op b = Op_value op)"
  proof
    assume "BinExpr_wellformed b"
    then obtain op where op: "Op_of_value (d_op b) = Some op" "op \<noteq> Invalid"
      by (auto simp: BinExpr_wellformed_def split: option.splits)
    from op(2) Op_cases_spec [of op] have "op \<in> insert FDIV spec_BinExpr_ops" by auto
    with Op_of_value_SomeD [OF op(1)] show "\<exists>op \<in> insert FDIV spec_BinExpr_ops. d_op b = Op_value op"
      by blast
  next
    assume "\<exists>op \<in> insert FDIV spec_BinExpr_ops. d_op b = Op_value op"
    then obtain op where "op \<in> insert FDIV spec_BinExpr_ops" "d_op b = Op_value op" by blast
    then show "BinExpr_wellformed b"
      by (auto simp: BinExpr_wellformed_def Op_of_value_Op_value spec_BinExpr_ops_def)
  qed
  have b: "insert FDIV spec_BinExpr_ops = UNIV - {Invalid}"
    using Op_cases_spec by (auto simp: spec_BinExpr_ops_def)
  have c: "\<not> BinExpr_wellformed (BinExpr_new :: 'e BinExpr)"
    by (simp add: BinExpr_wellformed_def BinExpr_new_def Op_of_value_def all_Ops_def)
  from a b c show ?thesis by blast
qed

subsection \<open>Set literals\<close>

text \<open>
  \<^verbatim>\<open>enum { SET_BIT_LEN = 32 }; typedef std::bitset<SET_BIT_LEN> SET;\<close> in
  \<^verbatim>\<open>struct Literal\<close>: a set value is a string of 32 bits, bit \<open>i\<close> telling whether \<open>i\<close> is
  an element.
\<close>

definition SET_BIT_LEN :: nat where
  "SET_BIT_LEN = 32"

type_synonym SET = "32 word"

text \<open>Membership is the bit at that position; a singleton is the one bit shifted into place.\<close>

definition SET_test :: "SET \<Rightarrow> nat \<Rightarrow> bool" where
  "SET_test s i = bit s i"

definition SET_single :: "nat \<Rightarrow> SET" where
  "SET_single i = push_bit i 1"

text \<open>
  Claim C8. Set literal values are 32-bit bitsets (\<^verbatim>\<open>SET_BIT_LEN = 32\<close>): an element of a
  set value is at most 31, every number from 0 to 31 is an element of some set value, and
  no bit stands for a number above 31.
\<close>

theorem SET_elements_below_32:
  "SET_BIT_LEN = 32
   \<and> SET_BIT_LEN = LENGTH(32)
   \<and> (SET_test s i \<longrightarrow> i \<le> 31)
   \<and> (i \<le> 31 \<longrightarrow> SET_test (SET_single i) i)
   \<and> (31 < i \<longrightarrow> SET_single i = 0)"
proof -
  have "SET_test s i \<longrightarrow> i \<le> 31"
    using bit_imp_le_length [of s i] by (auto simp: SET_test_def)
  moreover have "i \<le> 31 \<longrightarrow> SET_test (SET_single i) i"
    by (simp add: SET_test_def SET_single_def bit_exp_iff)
  moreover have "31 < i \<longrightarrow> SET_single i = 0"
    by (auto simp: SET_single_def intro!: bit_eqI simp: bit_push_bit_iff bit_1_iff dest: bit_imp_le_length)
  ultimately show ?thesis by (simp add: SET_BIT_LEN_def)
qed

theorem SET_elements_below_32_witness:
  "(31::nat) \<le> 31 \<and> SET_test (SET_single 31) 31 \<and> SET_single 32 = 0 \<and> \<not> SET_test (SET_single 31) 32"
  using SET_elements_below_32 [of "SET_single 31" 31, THEN conjunct2, THEN conjunct2]
    SET_elements_below_32 [of "SET_single 31" 32, THEN conjunct2, THEN conjunct2]
  by simp

subsection \<open>Diagnostics\<close>

text \<open>
  Modelled from the spec: the diagnostic kinds. The passes that report them (the
  declaration pass, the type resolver, the checker) are not in the header; the
  specification names each kind by a code, and these are the codes used below. It gives
  no code for a record whose base is not a record, nor for a loop step that is no
  constant; those two are \<open>record_base_illegal\<close> and \<open>for_step_not_constant\<close> here.
\<close>

datatype error =
    duplicate_name
  | unresolved_ident
  | illegal_self_ref
  | pointer_base_illegal
  | record_base_illegal
  | array_length_error
  | for_step_zero
  | for_step_not_constant

subsection \<open>Scopes\<close>

text \<open>
  Of \<^verbatim>\<open>struct Named\<close>: the name, the source position inherited from \<^verbatim>\<open>Thing\<close> (row and
  column), which tells two declarations apart, and the class of the entity.
\<close>

record Named =
  d_name :: string
  d_loc :: "nat \<times> nat"
  d_class :: Named_class

text \<open>
  \<^verbatim>\<open>struct Scope : public Named { QHash<const char*, Named*> d_names;
    QList< Ref<Named> > d_order; ...
    Named* find( const QByteArray&, bool recursive = true ) const;
    bool add( Named* ); };\<close>
  The hash is keyed by the address of the interned name, which stands for the name itself;
  \<^verbatim>\<open>d_scope\<close>, inherited from \<^verbatim>\<open>Named\<close>, is the enclosing scope, absent for a module.
\<close>

datatype Scope =
  Scope (d_names: "string \<rightharpoonup> Named") (d_order: "Named list") (d_scope: "Scope option")

text \<open>
  Modelled from the spec: the body of \<^verbatim>\<open>Scope::find\<close>, which the header only declares.
  ``\<^verbatim>\<open>find(name, recursive)\<close> searches the current scope, then walks upward''.
\<close>

fun Scope_find :: "Scope \<Rightarrow> string \<Rightarrow> bool \<Rightarrow> Named option" where
  "Scope_find (Scope names ord up) name recursive =
     (case names name of
        Some n \<Rightarrow> Some n
      | None \<Rightarrow>
          (if recursive
           then (case up of Some outer \<Rightarrow> Scope_find outer name True | None \<Rightarrow> None)
           else None))"

text \<open>
  Modelled from the spec: the body of \<^verbatim>\<open>Scope::add\<close>, which the header only declares.
  ``\<^verbatim>\<open>add(entity)\<close>: fails with \<^verbatim>\<open>duplicate-name\<close> if the name already exists at the same
  scope level''; otherwise the entity enters the name-keyed lookup and the ordered
  insertion list of the scope.
\<close>

definition Scope_add :: "Scope \<Rightarrow> Named \<Rightarrow> error + Scope" where
  "Scope_add s n =
     (if d_names s (d_name n) \<noteq> None then Inl duplicate_name
      else Inr (Scope ((d_names s)(d_name n \<mapsto> n)) (d_order s @ [n]) (d_scope s)))"

lemma Scope_find_local: "Scope_find s name False = d_names s name"
  by (cases s) (simp split: option.splits)

text \<open>
  Claim C4. Adding an entity to a scope fails, with \<^verbatim>\<open>duplicate-name\<close>, exactly when an
  entity of that name is found at the same scope level; when it succeeds, the name map of
  the scope holds the entity under its name and a non-recursive \<^verbatim>\<open>find\<close> of the name
  returns it.
\<close>

theorem Scope_add_duplicate_iff:
  "(Scope_add s n = Inl duplicate_name \<longleftrightarrow> (\<exists>m. Scope_find s (d_name n) False = Some m))
   \<and> ((\<exists>s'. Scope_add s n = Inr s') \<longleftrightarrow> Scope_find s (d_name n) False = None)
   \<and> (Scope_add s n = Inr s' \<longrightarrow>
        d_names s' (d_name n) = Some n \<and> Scope_find s' (d_name n) False = Some n)"
  by (auto simp: Scope_add_def Scope_find_local)

definition var_x :: Named where
  "var_x = \<lparr>d_name = ''x'', d_loc = (3, 5), d_class = T_Variable\<rparr>"

definition const_x :: Named where
  "const_x = \<lparr>d_name = ''x'', d_loc = (7, 9), d_class = T_Const\<rparr>"

definition empty_scope :: Scope where
  "empty_scope = Scope Map.empty [] None"

theorem Scope_add_duplicate_iff_witness:
  "Scope_add empty_scope var_x = Inr (Scope [''x'' \<mapsto> var_x] [var_x] None)
   \<and> d_names (Scope [''x'' \<mapsto> var_x] [var_x] None) (d_name var_x) = Some var_x
   \<and> Scope_find (Scope [''x'' \<mapsto> var_x] [var_x] None) (d_name var_x) False = Some var_x
   \<and> Scope_add (Scope [''x'' \<mapsto> var_x] [var_x] None) const_x = Inl duplicate_name"
proof -
  have a: "Scope_add empty_scope var_x = Inr (Scope [''x'' \<mapsto> var_x] [var_x] None)"
    by (simp add: Scope_add_def empty_scope_def var_x_def)
  have b: "\<exists>m. Scope_find (Scope [''x'' \<mapsto> var_x] [var_x] None) (d_name const_x) False = Some m"
    by (simp add: const_x_def)
  from Scope_add_duplicate_iff [of empty_scope var_x "Scope [''x'' \<mapsto> var_x] [var_x] None"] a
    Scope_add_duplicate_iff [of "Scope [''x'' \<mapsto> var_x] [var_x] None" const_x] b
  show ?thesis by blast
qed

subsection \<open>Types\<close>

text \<open>
  The subclasses of \<^verbatim>\<open>Type\<close>, one constructor each, named by the tag of the class. A
  reference to a named type is always a \<^verbatim>\<open>QualiType\<close> node that names it, so a type
  expression is a tree whose leaves are base types, enumerations and names; the cycles of
  the type graph run through the names. \<^verbatim>\<open>Ref<Type>\<close> fields may be null and are
  options. Kept of each class:
  \<^item> \<^verbatim>\<open>BaseType\<close>: the 4-bit kind tag;
  \<^item> \<^verbatim>\<open>Pointer\<close>: \<^verbatim>\<open>Ref<Type> d_to; // only to Record or Array\<close>;
  \<^item> \<^verbatim>\<open>Array\<close>: \<^verbatim>\<open>quint32 d_len; // zero for open arrays\<close>, \<^verbatim>\<open>Ref<Expression> d_lenExpr\<close>
    and the element type \<^verbatim>\<open>Ref<Type> d_type\<close>, called \<open>d_elem\<close> here; the expression type
    \<open>'e\<close> is left open;
  \<^item> \<^verbatim>\<open>Record\<close>: \<^verbatim>\<open>d_base\<close>, and the name and type of each entry of \<^verbatim>\<open>d_fields\<close> and
    \<^verbatim>\<open>d_methods\<close> (the back pointers \<^verbatim>\<open>d_baseRec\<close>, \<^verbatim>\<open>d_subRecs\<close>, \<^verbatim>\<open>d_binding\<close> are left
    out);
  \<^item> \<^verbatim>\<open>ProcType\<close>: \<^verbatim>\<open>d_return\<close> and the name and type of each formal;
  \<^item> \<^verbatim>\<open>QualiType\<close>: the name that \<^verbatim>\<open>d_quali\<close> spells, and the \<^verbatim>\<open>d_selfRef\<close> bit;
  \<^item> \<^verbatim>\<open>Enumeration\<close>: the names of \<^verbatim>\<open>d_items\<close>.
\<close>

datatype 'e Type =
    T_BaseType "4 word"
  | T_Pointer (d_to: "'e Type option")
  | T_Array (d_len: "32 word") (d_lenExpr: "'e option") (d_elem: "'e Type option")
  | T_Record (d_base: "'e Type option") (d_fields: "(string \<times> 'e Type) list")
      (d_methods: "(string \<times> 'e Type) list")
  | T_ProcType (d_return: "'e Type option") (d_formals: "(string \<times> 'e Type) list")
  | T_QualiType (d_quali: string) (d_selfRef: bool)
  | T_Enumeration (d_items: "string list")


text \<open>All nodes of a type expression: the node itself and the nodes below it.\<close>

fun subtypes :: "'e Type \<Rightarrow> 'e Type list" where
  "subtypes (T_BaseType k) = [T_BaseType k]"
| "subtypes (T_Pointer to) =
     T_Pointer to # (case to of None \<Rightarrow> [] | Some t \<Rightarrow> subtypes t)"
| "subtypes (T_Array len e el) =
     T_Array len e el # (case el of None \<Rightarrow> [] | Some t \<Rightarrow> subtypes t)"
| "subtypes (T_Record b fs ms) =
     T_Record b fs ms # (case b of None \<Rightarrow> [] | Some t \<Rightarrow> subtypes t)
       @ concat (map (\<lambda>(n, t). subtypes t) fs) @ concat (map (\<lambda>(n, t). subtypes t) ms)"
| "subtypes (T_ProcType r fs) =
     T_ProcType r fs # (case r of None \<Rightarrow> [] | Some t \<Rightarrow> subtypes t)
       @ concat (map (\<lambda>(n, t). subtypes t) fs)"
| "subtypes (T_QualiType n sr) = [T_QualiType n sr]"
| "subtypes (T_Enumeration items) = [T_Enumeration items]"

subsection \<open>The type resolver\<close>

text \<open>
  The resolver is a pass over the module's type declarations; no file of it is among the
  sources, so its rules are taken from section 4.3 of the specification. The declarations
  of a module are a list of pairs, the name of each \<^verbatim>\<open>NamedType\<close> and its declared type.
  Generic instantiation (rule 7) and the cap on extension chains are left out.
\<close>

fun isRecordOrArray :: "'e Type \<Rightarrow> bool" where
  "isRecordOrArray (T_Record b fs ms) = True"
| "isRecordOrArray (T_Array len e el) = True"
| "isRecordOrArray _ = False"

text \<open>
  Modelled from the spec: the body of \<^verbatim>\<open>QualiType::derefed\<close>, which the header only
  declares (\<^verbatim>\<open>Type::derefed\<close> returns \<^verbatim>\<open>this\<close>). A \<^verbatim>\<open>QualiType\<close> ``resolves to a
  non-qualified type'': its name is looked up and the declared type followed. The steps
  are counted, so that a cycle of names ends, on a \<^verbatim>\<open>QualiType\<close>.
\<close>

fun derefed :: "nat \<Rightarrow> (string \<rightharpoonup> 'e Type) \<Rightarrow> 'e Type \<Rightarrow> 'e Type" where
  "derefed (Suc k) env (T_QualiType n sr) =
     (case env n of Some t \<Rightarrow> derefed k env t | None \<Rightarrow> T_QualiType n sr)"
| "derefed k env t = t"

text \<open>
  Modelled from the spec: the test of rule 3, ``the resolved type must be \<^verbatim>\<open>Record\<close> or
  \<^verbatim>\<open>Array\<close>''. As many steps as there are declarations follow every chain of names that
  has no cycle.
\<close>

definition pointerBaseLegal :: "(string \<times> 'e Type) list \<Rightarrow> 'e Type option \<Rightarrow> bool" where
  "pointerBaseLegal decls to =
     (case to of None \<Rightarrow> False
      | Some t \<Rightarrow> isRecordOrArray (derefed (length decls) (map_of decls) t))"

text \<open>
  Modelled from the spec: the test of rule 4, ``the base must resolve to another
  \<^verbatim>\<open>Record\<close> (possibly via \<^verbatim>\<open>Pointer\<close> dereference)''.
\<close>

definition recordBaseLegal :: "(string \<times> 'e Type) list \<Rightarrow> 'e Type \<Rightarrow> bool" where
  "recordBaseLegal decls b =
     (case derefed (length decls) (map_of decls) b of
        T_Record b' fs ms \<Rightarrow> True
      | T_Pointer (Some t) \<Rightarrow>
          (case derefed (length decls) (map_of decls) t of
             T_Record b' fs ms \<Rightarrow> True
           | _ \<Rightarrow> False)
      | _ \<Rightarrow> False)"

text \<open>
  Modelled from the spec: the test of rule 5. The length expression must be ``a
  compile-time constant integer \<open>\<ge> 1\<close>''; \<open>constInt\<close> is the compile-time evaluator, which
  gives the value of an expression that is a constant integer. The rule has no upper
  bound. The result is the length as the \<^verbatim>\<open>quint32\<close> field \<^verbatim>\<open>d_len\<close> holds it: the
  assignment of an integer to the field keeps its low 32 bits.
\<close>

definition arrayLength :: "('e \<Rightarrow> int option) \<Rightarrow> 'e \<Rightarrow> 32 word option" where
  "arrayLength constInt e =
     (case constInt e of
        Some n \<Rightarrow> if 1 \<le> n then Some (word_of_int n) else None
      | None \<Rightarrow> None)"

text \<open>
  Modelled from the spec: the diagnostics of \<^verbatim>\<open>resolveType\<close>, rules 2 to 6, for the
  declaration \<open>self\<close>. No error ends the pass, so they are collected. \<open>inside\<close> tells
  whether the node stands inside a pointer, record or procedure type, where a reference of
  the declaration to itself is legal.
  \<^item> Rule 2, \<^verbatim>\<open>QualiType\<close>: the name is looked up; the declaration being resolved is a
    self-reference, ``legal only inside a \<^verbatim>\<open>Pointer\<close> or inside record/procedure type
    composition; otherwise \<^verbatim>\<open>illegal-self-ref\<close>''.
  \<^item> Rule 3, \<^verbatim>\<open>Pointer\<close>: ``recursively resolve \<^verbatim>\<open>p.to\<close>; the resolved type must be
    \<^verbatim>\<open>Record\<close> or \<^verbatim>\<open>Array\<close>; else \<^verbatim>\<open>pointer-base-illegal\<close>''.
  \<^item> Rule 4, \<^verbatim>\<open>Record\<close>: resolve the base, which must resolve to a record; ``then
    resolve each field's type and each method's procedure type''.
  \<^item> Rule 5, \<^verbatim>\<open>Array\<close>: ``resolve element type; a fixed-length array whose length
    expression is not a compile-time constant integer \<open>\<ge> 1\<close> is \<^verbatim>\<open>array-length-error\<close>''.
  \<^item> Rule 6, \<^verbatim>\<open>ProcType\<close>: ``resolve each formal's type and the return type''.
\<close>

fun resolveErrors ::
  "('e \<Rightarrow> int option) \<Rightarrow> (string \<times> 'e Type) list \<Rightarrow> string \<Rightarrow> bool \<Rightarrow> 'e Type \<Rightarrow> error list" where
  "resolveErrors ci ds self inside (T_BaseType k) = []"
| "resolveErrors ci ds self inside (T_Pointer to) =
     (case to of None \<Rightarrow> [] | Some t \<Rightarrow> resolveErrors ci ds self True t)
     @ (if pointerBaseLegal ds to then [] else [pointer_base_illegal])"
| "resolveErrors ci ds self inside (T_Array len e el) =
     (case el of None \<Rightarrow> [] | Some t \<Rightarrow> resolveErrors ci ds self inside t)
     @ (case e of None \<Rightarrow> []
        | Some x \<Rightarrow> (if arrayLength ci x = None then [array_length_error] else []))"
| "resolveErrors ci ds self inside (T_Record b fs ms) =
     (case b of None \<Rightarrow> []
      | Some t \<Rightarrow> resolveErrors ci ds self True t
                  @ (if recordBaseLegal ds t then [] else [record_base_illegal]))
     @ concat (map (\<lambda>(n, t). resolveErrors ci ds self True t) fs)
     @ concat (map (\<lambda>(n, t). resolveErrors ci ds self True t) ms)"
| "resolveErrors ci ds self inside (T_ProcType r fs) =
     concat (map (\<lambda>(n, t). resolveErrors ci ds self True t) fs)
     @ (case r of None \<Rightarrow> [] | Some t \<Rightarrow> resolveErrors ci ds self True t)"
| "resolveErrors ci ds self inside (T_QualiType n sr) =
     (if n = self then (if inside then [] else [illegal_self_ref])
      else (case map_of ds n of None \<Rightarrow> [unresolved_ident] | Some t \<Rightarrow> []))"
| "resolveErrors ci ds self inside (T_Enumeration items) = []"

text \<open>
  Modelled from the spec: what \<^verbatim>\<open>resolveType\<close> leaves in the nodes. An array with an
  admissible length expression gets the length in \<^verbatim>\<open>d_len\<close>, every other array keeps
  what it has; a reference of the declaration to itself is marked \<^verbatim>\<open>d_selfRef\<close>.
\<close>

fun resolved :: "('e \<Rightarrow> int option) \<Rightarrow> string \<Rightarrow> 'e Type \<Rightarrow> 'e Type" where
  "resolved ci self (T_BaseType k) = T_BaseType k"
| "resolved ci self (T_Pointer to) = T_Pointer (map_option (resolved ci self) to)"
| "resolved ci self (T_Array len e el) =
     T_Array (case e of None \<Rightarrow> len
              | Some x \<Rightarrow> (case arrayLength ci x of Some n \<Rightarrow> n | None \<Rightarrow> len))
       e (map_option (resolved ci self) el)"
| "resolved ci self (T_Record b fs ms) =
     T_Record (map_option (resolved ci self) b)
       (map (\<lambda>(n, t). (n, resolved ci self t)) fs)
       (map (\<lambda>(n, t). (n, resolved ci self t)) ms)"
| "resolved ci self (T_ProcType r fs) =
     T_ProcType (map_option (resolved ci self) r) (map (\<lambda>(n, t). (n, resolved ci self t)) fs)"
| "resolved ci self (T_QualiType n sr) = T_QualiType n (sr \<or> n = self)"
| "resolved ci self (T_Enumeration items) = T_Enumeration items"


text \<open>
  Modelled from the spec: rule 1, ``walk each module's type-declaration list; for each
  \<^verbatim>\<open>NamedType\<close>, call \<^verbatim>\<open>resolveType\<close>''. The result is the list of diagnostics and the
  declarations after the pass.
\<close>

definition resolveModule ::
  "('e \<Rightarrow> int option) \<Rightarrow> (string \<times> 'e Type) list \<Rightarrow> error list \<times> (string \<times> 'e Type) list" where
  "resolveModule ci ds =
     (concat (map (\<lambda>(n, t). resolveErrors ci ds n False t) ds),
      map (\<lambda>(n, t). (n, resolved ci n t)) ds)"

text \<open>A pointer node is legal when its target, dereferenced, is a record or an array.\<close>

fun pointerLegal :: "(string \<times> 'e Type) list \<Rightarrow> 'e Type \<Rightarrow> bool" where
  "pointerLegal ds (T_Pointer to) = pointerBaseLegal ds to"
| "pointerLegal ds t = True"

text \<open>A property of every node of a type expression.\<close>

definition allNodes :: "('e Type \<Rightarrow> bool) \<Rightarrow> 'e Type \<Rightarrow> bool" where
  "allNodes P t = list_all P (subtypes t)"

definition pointersLegal :: "(string \<times> 'e Type) list \<Rightarrow> 'e Type \<Rightarrow> bool" where
  "pointersLegal ds t = allNodes (pointerLegal ds) t"

lemma set_subtypes:
  "set (subtypes (T_Pointer to)) = insert (T_Pointer to) (\<Union>t \<in> set_option to. set (subtypes t))"
  "set (subtypes (T_Array len e el)) =
     insert (T_Array len e el) (\<Union>t \<in> set_option el. set (subtypes t))"
  "set (subtypes (T_Record b fs ms)) =
     insert (T_Record b fs ms)
       ((\<Union>t \<in> set_option b. set (subtypes t)) \<union> (\<Union>t \<in> snd ` set fs. set (subtypes t))
        \<union> (\<Union>t \<in> snd ` set ms. set (subtypes t)))"
  "set (subtypes (T_ProcType r fs)) =
     insert (T_ProcType r fs)
       ((\<Union>t \<in> set_option r. set (subtypes t)) \<union> (\<Union>t \<in> snd ` set fs. set (subtypes t)))"
  by (auto split: option.splits)

lemma allNodes_simps:
  "allNodes P (T_BaseType k) \<longleftrightarrow> P (T_BaseType k)"
  "allNodes P (T_QualiType n sr) \<longleftrightarrow> P (T_QualiType n sr)"
  "allNodes P (T_Enumeration items) \<longleftrightarrow> P (T_Enumeration items)"
  "allNodes P (T_Pointer to) \<longleftrightarrow> P (T_Pointer to) \<and> (\<forall>t \<in> set_option to. allNodes P t)"
  "allNodes P (T_Array len e el) \<longleftrightarrow>
     P (T_Array len e el) \<and> (\<forall>t \<in> set_option el. allNodes P t)"
  "allNodes P (T_Record b fs ms) \<longleftrightarrow>
     P (T_Record b fs ms) \<and> (\<forall>t \<in> set_option b. allNodes P t)
     \<and> (\<forall>t \<in> snd ` set fs. allNodes P t) \<and> (\<forall>t \<in> snd ` set ms. allNodes P t)"
  "allNodes P (T_ProcType r fs) \<longleftrightarrow>
     P (T_ProcType r fs) \<and> (\<forall>t \<in> set_option r. allNodes P t)
     \<and> (\<forall>t \<in> snd ` set fs. allNodes P t)"
  unfolding allNodes_def list_all_iff set_subtypes
  by (simp_all add: ball_Un)

lemma pointersLegal_simps:
  "pointersLegal ds (T_BaseType k)"
  "pointersLegal ds (T_QualiType n sr)"
  "pointersLegal ds (T_Enumeration items)"
  "pointersLegal ds (T_Pointer to) \<longleftrightarrow>
     pointerBaseLegal ds to \<and> (\<forall>t \<in> set_option to. pointersLegal ds t)"
  "pointersLegal ds (T_Array len e el) \<longleftrightarrow> (\<forall>t \<in> set_option el. pointersLegal ds t)"
  "pointersLegal ds (T_Record b fs ms) \<longleftrightarrow>
     (\<forall>t \<in> set_option b. pointersLegal ds t) \<and> (\<forall>t \<in> snd ` set fs. pointersLegal ds t)
     \<and> (\<forall>t \<in> snd ` set ms. pointersLegal ds t)"
  "pointersLegal ds (T_ProcType r fs) \<longleftrightarrow>
     (\<forall>t \<in> set_option r. pointersLegal ds t) \<and> (\<forall>t \<in> snd ` set fs. pointersLegal ds t)"
  by (simp_all add: pointersLegal_def allNodes_simps)

lemma set_concat_snd:
  "set (concat (map (\<lambda>(n, t). E t) fs)) = (\<Union>t \<in> snd ` set fs. set (E t))"
  by (induction fs) auto

lemma ball_snd_cong:
  assumes "\<And>x t. x \<in> set fs \<Longrightarrow> t \<in> Basic_BNFs.snds x \<Longrightarrow> P t = Q t"
  shows "(\<forall>t \<in> snd ` set fs. P t) \<longleftrightarrow> (\<forall>t \<in> snd ` set fs. Q t)"
proof -
  have "P (snd x) = Q (snd x)" if "x \<in> set fs" for x
    using assms [OF that, of "snd x"] by (cases x) simp
  then show ?thesis by simp
qed

lemma resolveErrors_pointers:
  "pointer_base_illegal \<notin> set (resolveErrors ci ds self inside t) \<longleftrightarrow> pointersLegal ds t"
proof (induction t arbitrary: inside)
  case (T_Pointer to)
  then show ?case by (cases to) (simp_all add: pointersLegal_simps)
next
  case (T_Array len e el)
  then show ?case by (cases el; cases e) (simp_all add: pointersLegal_simps)
next
  case (T_Record b fs ms)
  have b: "pointer_base_illegal
             \<notin> set (case b of None \<Rightarrow> []
                     | Some t \<Rightarrow> resolveErrors ci ds self True t
                         @ (if recordBaseLegal ds t then [] else [record_base_illegal]))
           \<longleftrightarrow> (\<forall>t \<in> set_option b. pointersLegal ds t)"
    using T_Record.IH(1) by (cases b) simp_all
  have f: "(\<forall>t \<in> snd ` set fs. pointer_base_illegal \<notin> set (resolveErrors ci ds self True t))
           \<longleftrightarrow> (\<forall>t \<in> snd ` set fs. pointersLegal ds t)"
    by (rule ball_snd_cong) (rule T_Record.IH(2))
  have m: "(\<forall>t \<in> snd ` set ms. pointer_base_illegal \<notin> set (resolveErrors ci ds self True t))
           \<longleftrightarrow> (\<forall>t \<in> snd ` set ms. pointersLegal ds t)"
    by (rule ball_snd_cong) (rule T_Record.IH(3))
  show ?case
    unfolding resolveErrors.simps pointersLegal_simps set_append set_concat_snd
    using b f m by simp
next
  case (T_ProcType r fs)
  have r: "pointer_base_illegal
             \<notin> set (case r of None \<Rightarrow> [] | Some t \<Rightarrow> resolveErrors ci ds self True t)
           \<longleftrightarrow> (\<forall>t \<in> set_option r. pointersLegal ds t)"
    using T_ProcType.IH(1) by (cases r) simp_all
  have f: "(\<forall>t \<in> snd ` set fs. pointer_base_illegal \<notin> set (resolveErrors ci ds self True t))
           \<longleftrightarrow> (\<forall>t \<in> snd ` set fs. pointersLegal ds t)"
    by (rule ball_snd_cong) (rule T_ProcType.IH(2))
  show ?case
    unfolding resolveErrors.simps pointersLegal_simps set_append set_concat_snd
    using r f by auto
next
  case (T_QualiType n sr)
  then show ?case by (simp add: pointersLegal_simps split: option.splits)
qed (simp_all add: pointersLegal_simps)

lemma map_of_resolved:
  "map_of (map (\<lambda>(n, t). (n, resolved ci n t)) ds) n = map_option (resolved ci n) (map_of ds n)"
  by (induction ds) auto

lemma isRecordOrArray_resolved: "isRecordOrArray (resolved ci self t) = isRecordOrArray t"
  by (cases t) simp_all

lemma derefed_resolved:
  "isRecordOrArray (derefed k (map_of (map (\<lambda>(n, t). (n, resolved ci n t)) ds)) (resolved ci self t))
   = isRecordOrArray (derefed k (map_of ds) t)"
proof (induction k arbitrary: t self)
  case 0
  then show ?case by (cases t) simp_all
next
  case (Suc k)
  show ?case
  proof (cases t)
    case (T_QualiType n sr)
    then show ?thesis
      using Suc.IH by (cases "map_of ds n") (simp_all add: map_of_resolved)
  qed simp_all
qed

lemma pointerBaseLegal_resolved:
  "pointerBaseLegal (map (\<lambda>(n, t). (n, resolved ci n t)) ds) (Some (resolved ci self t))
   = pointerBaseLegal ds (Some t)"
  "pointerBaseLegal (map (\<lambda>(n, t). (n, resolved ci n t)) ds) None = pointerBaseLegal ds None"
  by (simp_all add: pointerBaseLegal_def derefed_resolved)

lemma snd_case_prod_pair: "snd (case x of (n, t) \<Rightarrow> (n, f t)) = f (snd x)"
  by (cases x) simp

lemma ball_snd_resolved:
  assumes "\<And>x t. x \<in> set fs \<Longrightarrow> t \<in> Basic_BNFs.snds x \<Longrightarrow> P (f t) = Q t"
  shows "(\<forall>t \<in> snd ` set (map (\<lambda>(n, t). (n, f t)) fs). P t) \<longleftrightarrow> (\<forall>t \<in> snd ` set fs. Q t)"
proof -
  have "P (f (snd x)) = Q (snd x)" if "x \<in> set fs" for x
    using assms [OF that, of "snd x"] by (cases x) simp
  then show ?thesis by (simp add: snd_case_prod_pair)
qed

lemma pointersLegal_resolved:
  "pointersLegal (map (\<lambda>(n, t). (n, resolved ci n t)) ds) (resolved ci self t) = pointersLegal ds t"
proof (induction t)
  case (T_Pointer to)
  then show ?case
    by (cases to) (simp_all add: pointersLegal_simps pointerBaseLegal_resolved)
next
  case (T_Array len e el)
  then show ?case by (cases el) (simp_all add: pointersLegal_simps)
next
  case (T_Record b fs ms)
  have "(\<forall>t \<in> set_option (map_option (resolved ci self) b).
            pointersLegal (map (\<lambda>(n, t). (n, resolved ci n t)) ds) t)
        \<longleftrightarrow> (\<forall>t \<in> set_option b. pointersLegal ds t)"
    using T_Record.IH(1) by (cases b) simp_all
  then show ?case
    unfolding resolved.simps pointersLegal_simps
    using ball_snd_resolved [of fs "pointersLegal (map (\<lambda>(n, t). (n, resolved ci n t)) ds)"
        "resolved ci self" "pointersLegal ds", OF T_Record.IH(2)]
      ball_snd_resolved [of ms "pointersLegal (map (\<lambda>(n, t). (n, resolved ci n t)) ds)"
        "resolved ci self" "pointersLegal ds", OF T_Record.IH(3)]
    by simp
next
  case (T_ProcType r fs)
  have "(\<forall>t \<in> set_option (map_option (resolved ci self) r).
            pointersLegal (map (\<lambda>(n, t). (n, resolved ci n t)) ds) t)
        \<longleftrightarrow> (\<forall>t \<in> set_option r. pointersLegal ds t)"
    using T_ProcType.IH(1) by (cases r) simp_all
  then show ?case
    unfolding resolved.simps pointersLegal_simps
    using ball_snd_resolved [of fs "pointersLegal (map (\<lambda>(n, t). (n, resolved ci n t)) ds)"
        "resolved ci self" "pointersLegal ds", OF T_ProcType.IH(2)]
    by simp
qed (simp_all add: pointersLegal_simps)

lemma resolveModule_legal_iff:
  "pointer_base_illegal \<notin> set (fst (resolveModule ci ds))
   \<longleftrightarrow> (\<forall>(n, t) \<in> set (snd (resolveModule ci ds)). pointersLegal (snd (resolveModule ci ds)) t)"
  by (auto simp: resolveModule_def resolveErrors_pointers pointersLegal_resolved)

lemma pointersLegal_D:
  "pointersLegal ds t \<Longrightarrow> T_Pointer to \<in> set (subtypes t) \<Longrightarrow> pointerBaseLegal ds to"
  by (auto simp: pointersLegal_def allNodes_def list_all_iff)

lemma pointersLegal_I:
  "(\<And>to. T_Pointer to \<in> set (subtypes t) \<Longrightarrow> pointerBaseLegal ds to) \<Longrightarrow> pointersLegal ds t"
  unfolding pointersLegal_def allNodes_def list_all_iff
proof
  fix x assume a: "\<And>to. T_Pointer to \<in> set (subtypes t) \<Longrightarrow> pointerBaseLegal ds to"
    and x: "x \<in> set (subtypes t)"
  then show "pointerLegal ds x" by (cases x) auto
qed

lemma pointerBaseLegal_D:
  "pointerBaseLegal ds to \<Longrightarrow>
     \<exists>u. to = Some u \<and> isRecordOrArray (derefed (length ds) (map_of ds) u)
        \<and> (\<forall>k. derefed (length ds) (map_of ds) u \<noteq> T_BaseType k)"
  by (cases to) (auto simp: pointerBaseLegal_def)

text \<open>
  Claim C3. After the resolver has run over the declarations of a module without
  reporting \<^verbatim>\<open>pointer-base-illegal\<close>, every pointer type in them has a target, and the
  target, dereferenced, is a record or an array, never a primitive base type; and when
  some pointer has no such target, \<^verbatim>\<open>pointer-base-illegal\<close> is among the diagnostics.
\<close>

theorem resolveModule_pointers:
  "resolveModule ci ds = (errs, ds') \<Longrightarrow>
     (pointer_base_illegal \<notin> set errs \<longrightarrow>
        (\<forall>(n, t) \<in> set ds'. \<forall>to. T_Pointer to \<in> set (subtypes t) \<longrightarrow>
           (\<exists>u. to = Some u \<and> isRecordOrArray (derefed (length ds') (map_of ds') u)
                \<and> (\<forall>k. derefed (length ds') (map_of ds') u \<noteq> T_BaseType k))))
     \<and> ((\<exists>(n, t) \<in> set ds'. \<exists>to. T_Pointer to \<in> set (subtypes t) \<and> \<not> pointerBaseLegal ds' to)
          \<longrightarrow> pointer_base_illegal \<in> set errs)"
proof (intro conjI impI)
  assume r: "resolveModule ci ds = (errs, ds')" and ok: "pointer_base_illegal \<notin> set errs"
  from r ok resolveModule_legal_iff [of ci ds]
  have "\<forall>(n, t) \<in> set ds'. pointersLegal ds' t" by simp
  then show "\<forall>(n, t) \<in> set ds'. \<forall>to. T_Pointer to \<in> set (subtypes t) \<longrightarrow>
           (\<exists>u. to = Some u \<and> isRecordOrArray (derefed (length ds') (map_of ds') u)
                \<and> (\<forall>k. derefed (length ds') (map_of ds') u \<noteq> T_BaseType k))"
    by (auto dest!: pointersLegal_D pointerBaseLegal_D)
next
  assume r: "resolveModule ci ds = (errs, ds')"
    and bad: "\<exists>(n, t) \<in> set ds'. \<exists>to. T_Pointer to \<in> set (subtypes t) \<and> \<not> pointerBaseLegal ds' to"
  from bad have "\<not> (\<forall>(n, t) \<in> set ds'. pointersLegal ds' t)"
    by (auto dest: pointersLegal_D)
  with r resolveModule_legal_iff [of ci ds] show "pointer_base_illegal \<in> set errs"
    by simp
qed


text \<open>
  Two modules to run the resolver on: the forward pointer of the specification's second
  scenario, \<^verbatim>\<open>TYPE P = POINTER TO R; R = RECORD next: P; val: INTEGER END\<close>, and
  \<^verbatim>\<open>TYPE Q = POINTER TO INTEGER\<close>. Length expressions are integer literals here, and the
  evaluator is \<open>Some\<close>.
\<close>

definition seg_next :: "(string \<times> int Type) list" where
  "seg_next =
     [(''P'', T_Pointer (Some (T_QualiType ''R'' False))),
      (''R'', T_Record None [(''next'', T_QualiType ''P'' False), (''val'', T_BaseType 9)] [])]"

definition ptr_to_integer :: "(string \<times> int Type) list" where
  "ptr_to_integer = [(''Q'', T_Pointer (Some (T_BaseType 9)))]"

theorem resolveModule_pointers_witness:
  "resolveModule Some seg_next = ([], seg_next)
   \<and> isRecordOrArray (derefed (length seg_next) (map_of seg_next) (T_QualiType ''R'' False))
   \<and> \<not> pointerBaseLegal ptr_to_integer (Some (T_BaseType 9))
   \<and> pointer_base_illegal \<in> set (fst (resolveModule Some ptr_to_integer))"
proof -
  have a: "resolveModule Some seg_next = ([], seg_next)"
    by (simp add: resolveModule_def seg_next_def pointerBaseLegal_def)
  have p: "(''P'', T_Pointer (Some (T_QualiType ''R'' False))) \<in> set seg_next"
    "T_Pointer (Some (T_QualiType ''R'' False))
       \<in> set (subtypes (T_Pointer (Some (T_QualiType ''R'' False))))"
    by (simp_all add: seg_next_def)
  have "pointer_base_illegal \<notin> set []" by simp
  with resolveModule_pointers [OF a] p
  have "isRecordOrArray (derefed (length seg_next) (map_of seg_next) (T_QualiType ''R'' False))"
    by fastforce
  moreover
  have b: "resolveModule Some ptr_to_integer = ([pointer_base_illegal], ptr_to_integer)"
    by (simp add: resolveModule_def ptr_to_integer_def pointerBaseLegal_def)
  have q: "\<not> pointerBaseLegal ptr_to_integer (Some (T_BaseType 9))"
    by (simp add: pointerBaseLegal_def)
  have "\<exists>(n, t) \<in> set ptr_to_integer. \<exists>to. T_Pointer to \<in> set (subtypes t)
          \<and> \<not> pointerBaseLegal ptr_to_integer to"
    using q by (simp add: ptr_to_integer_def)
  with resolveModule_pointers [OF b]
  have "pointer_base_illegal \<in> set [pointer_base_illegal]" by blast
  ultimately show ?thesis using a b q by simp
qed















subsection \<open>The step of a \<^verbatim>\<open>FOR\<close> loop\<close>

text \<open>
  \<^verbatim>\<open>struct ForLoop : public Statement { Ref<Expression> d_id, d_from, d_to, d_by;
    QVariant d_byVal; StatSeq d_do; };\<close> The four expressions are references that may be
  null, \<^verbatim>\<open>d_by\<close> being null when the loop has no \<^verbatim>\<open>BY\<close> part; \<^verbatim>\<open>d_byVal\<close> is a variant
  that is invalid until the checker stores the value of the step in it. The types of
  expressions and statements are left open.
\<close>

record ('e, 's) ForLoop =
  d_id :: "'e option"
  d_from :: "'e option"
  d_to :: "'e option"
  d_by :: "'e option"
  d_byVal :: "int option"
  d_do :: "'s list"

text \<open>
  Modelled from the spec: the part of the statement checker that treats the step of a
  \<^verbatim>\<open>ForLoop\<close>; the checker is in no file of the sources. ``\<^verbatim>\<open>by\<close> must be a nonzero
  compile-time integer constant (defaulting to +1 when absent)'', and of a step that is
  zero the ``specification chooses \<^verbatim>\<open>error: for-step-zero\<close>''. \<open>constInt\<close> is the
  compile-time evaluator. A loop whose step is in error keeps the \<^verbatim>\<open>d_byVal\<close> it had.
\<close>

definition checkForLoop_by ::
  "('e \<Rightarrow> int option) \<Rightarrow> ('e, 's) ForLoop \<Rightarrow> error list \<times> ('e, 's) ForLoop" where
  "checkForLoop_by constInt f =
     (case d_by f of
        None \<Rightarrow> ([], f\<lparr>d_byVal := Some 1\<rparr>)
      | Some e \<Rightarrow>
          (case constInt e of
             None \<Rightarrow> ([for_step_not_constant], f)
           | Some v \<Rightarrow> if v = 0 then ([for_step_zero], f) else ([], f\<lparr>d_byVal := Some v\<rparr>)))"

text \<open>
  Claim C5. When a \<^verbatim>\<open>ForLoop\<close> is checked, an absent step expression makes the step
  value +1, without a diagnostic; a step expression that is a compile-time integer
  constant equal to zero is reported as \<^verbatim>\<open>for-step-zero\<close>, and the loop is left as it was,
  so the zero step is not turned into +1.
\<close>

theorem checkForLoop_by_default_and_zero:
  "(d_by f = None \<longrightarrow> checkForLoop_by constInt f = ([], f\<lparr>d_byVal := Some 1\<rparr>))
   \<and> (d_by f = Some e \<and> constInt e = Some 0 \<longrightarrow>
        checkForLoop_by constInt f = ([for_step_zero], f))"
  by (simp add: checkForLoop_by_def)

definition for_no_by :: "(int, unit) ForLoop" where
  "for_no_by =
     \<lparr>d_id = Some 100, d_from = Some 0, d_to = Some 9, d_by = None, d_byVal = None, d_do = []\<rparr>"

theorem checkForLoop_by_default_and_zero_witness:
  "checkForLoop_by Some for_no_by = ([], for_no_by\<lparr>d_byVal := Some 1\<rparr>)
   \<and> checkForLoop_by Some (for_no_by\<lparr>d_by := Some 0\<rparr>)
       = ([for_step_zero], for_no_by\<lparr>d_by := Some 0\<rparr>)
   \<and> d_byVal (snd (checkForLoop_by Some (for_no_by\<lparr>d_by := Some 0\<rparr>))) = None"
proof -
  have a: "d_by for_no_by = None" by (simp add: for_no_by_def)
  have b: "d_by (for_no_by\<lparr>d_by := Some 0\<rparr>) = Some 0 \<and> Some (0 :: int) = Some 0" by simp
  from checkForLoop_by_default_and_zero [where f = for_no_by and constInt = Some,
      THEN conjunct1, rule_format, OF a]
    checkForLoop_by_default_and_zero [where f = "for_no_by\<lparr>d_by := Some 0\<rparr>" and e = 0
      and constInt = Some, THEN conjunct2, rule_format, OF b]
  show ?thesis by (simp add: for_no_by_def)
qed

section \<open>The file buffers of the Oberon System runtime (ObsFiles)\<close>

text \<open>
  \<^verbatim>\<open>struct FileBuffer { QBuffer* d_buf; };\<close> The buffer is a Qt \<^verbatim>\<open>QBuffer\<close>, or null
  when the file is not open. Qt is not part of the repository: the device is any type
  \<open>'b\<close>, and \<^verbatim>\<open>QBuffer::seek\<close> is a parameter that returns whether the seek succeeded
  together with the device afterwards.
\<close>

record 'b FileBuffer =
  d_buf :: "'b option"

text \<open>
  \<^verbatim>\<open>int ObsFiles_setPos( FileBuffer* fb, int pos )
  {
      if( fb->d_buf )
      {
          if( pos < 0 ) // it happens a few times that -1 instead of 0 is passed; ...
              pos = 0;
          if( !fb->d_buf->seek(pos) )
          {
              qWarning() << "*** could not seek to" << pos << ...;
              return false;
          }
          return true;
      }else
          return false;
  }\<close>
  The position is only compared with zero and passed on, so no arithmetic can overflow and
  it is an \<open>int\<close>. The result is the \<^verbatim>\<open>true\<close> or \<^verbatim>\<open>false\<close> returned; the warning written
  to the log is not modelled.
\<close>

definition ObsFiles_setPos ::
  "('b \<Rightarrow> int \<Rightarrow> bool \<times> 'b) \<Rightarrow> 'b FileBuffer \<Rightarrow> int \<Rightarrow> bool \<times> 'b FileBuffer" where
  "ObsFiles_setPos seek fb pos =
     (case d_buf fb of
        Some b \<Rightarrow>
          (let pos' = (if pos < 0 then 0 else pos);
               (ok, b') = seek b pos'
           in if \<not> ok then (False, fb\<lparr>d_buf := Some b'\<rparr>)
              else (True, fb\<lparr>d_buf := Some b'\<rparr>))
      | None \<Rightarrow> (False, fb))"

text \<open>
  A device to run the function on: a size and a current position, where a seek succeeds
  within \<open>0..size\<close> and leaves the position alone otherwise.
\<close>

definition seek_within :: "nat \<times> int \<Rightarrow> int \<Rightarrow> bool \<times> (nat \<times> int)" where
  "seek_within b p = (if 0 \<le> p \<and> p \<le> int (fst b) then (True, (fst b, p)) else (False, b))"

text \<open>
  Claim C10. \<^verbatim>\<open>ObsFiles_setPos\<close> treats a negative position as position 0: the call
  with a negative position is the call with 0, and is no error by itself. It returns false
  when the buffer is absent; with a buffer it returns what the seek to the clamped position
  returns, false when the seek fails and true otherwise.
\<close>

theorem ObsFiles_setPos_clamps:
  "(pos < 0 \<longrightarrow> ObsFiles_setPos seek fb pos = ObsFiles_setPos seek fb 0)
   \<and> (d_buf fb = None \<longrightarrow> ObsFiles_setPos seek fb pos = (False, fb))
   \<and> (d_buf fb = Some b \<longrightarrow>
        ObsFiles_setPos seek fb pos =
          (fst (seek b (max 0 pos)), fb\<lparr>d_buf := Some (snd (seek b (max 0 pos)))\<rparr>))"
  by (auto simp: ObsFiles_setPos_def Let_def max_def split: option.splits prod.splits)

theorem ObsFiles_setPos_clamps_witness:
  "ObsFiles_setPos seek_within \<lparr>d_buf = Some (10, 3)\<rparr> (- 1) = (True, \<lparr>d_buf = Some (10, 0)\<rparr>)
   \<and> ObsFiles_setPos seek_within \<lparr>d_buf = Some (10, 3)\<rparr> 11 = (False, \<lparr>d_buf = Some (10, 3)\<rparr>)
   \<and> ObsFiles_setPos seek_within \<lparr>d_buf = None\<rparr> 5 = (False, \<lparr>d_buf = None\<rparr>)
   \<and> ObsFiles_setPos seek_within \<lparr>d_buf = Some (10, 3)\<rparr> (- 1)
       = ObsFiles_setPos seek_within \<lparr>d_buf = Some (10, 3)\<rparr> 0"
proof -
  have n: "(- 1 :: int) < 0" by simp
  have a: "d_buf \<lparr>d_buf = Some (10 :: nat, 3 :: int)\<rparr> = Some (10, 3)"
    and b: "d_buf \<lparr>d_buf = (None :: (nat \<times> int) option)\<rparr> = None"
    by simp_all
  note t = ObsFiles_setPos_clamps [THEN conjunct2]
  from t [THEN conjunct2, rule_format, OF a, of seek_within "- 1"]
    t [THEN conjunct2, rule_format, OF a, of seek_within 11]
    t [THEN conjunct1, rule_format, OF b, of seek_within 5]
    ObsFiles_setPos_clamps [THEN conjunct1, rule_format, OF n, of seek_within "\<lparr>d_buf = Some (10, 3)\<rparr>"]
  show ?thesis
    by (simp add: seek_within_def)
qed

end
